theory Spec2Isabelle
  imports Main
begin

section \<open>The URL pattern of \<open>WebSocket::open\<close>\<close>

text \<open>
  \<open>WebSocket::open\<close> splits its argument with \<open>std::regex_match\<close> and a POSIX extended
  pattern. The standard library is not part of the repository, so the constructs the
  pattern uses are modelled here: literal characters, negated bracket expressions, the
  dot (any character but NUL), the quantifiers \<open>*\<close>, \<open>+\<close>, \<open>{m,n}\<close> on a single character, \<open>?\<close> on a group, and
  numbered groups. Matching is greedy with backtracking and the first complete match
  wins, which is what \<open>regex_match\<close> returns for a pattern without alternation.
\<close>

datatype atom = Chr char | NoneOf string | AnyChar

fun atom_matches :: "atom \<Rightarrow> char \<Rightarrow> bool" where
  "atom_matches (Chr c) x = (x = c)"
| "atom_matches (NoneOf cs) x = (x \<notin> set cs)"
| "atom_matches AnyChar x = (x \<noteq> CHR 0x00)"

datatype regex =
    Bol
  | Atom atom
  | Rep nat "nat option" atom
  | Opt regex
  | Seq regex regex
  | Grp nat regex

type_synonym captures = "(nat \<times> string) list"

text \<open>
  \<open>rep a lo hi s k\<close>: between \<open>lo\<close> and \<open>hi\<close> (unbounded when \<open>None\<close>) characters of \<open>s\<close>
  that match \<open>a\<close>, the longest run first; \<open>k\<close> is the rest of the pattern.
\<close>

fun rep :: "atom \<Rightarrow> nat \<Rightarrow> nat option \<Rightarrow> string \<Rightarrow> (string \<Rightarrow> 'r option) \<Rightarrow> 'r option" where
  "rep a lo hi [] k = (if lo = 0 then k [] else None)"
| "rep a lo hi (x # xs) k =
     (case (if atom_matches a x \<and> hi \<noteq> Some 0
            then rep a (lo - 1) (map_option (\<lambda>h. h - 1) hi) xs k else None) of
        Some r \<Rightarrow> Some r
      | None \<Rightarrow> if lo = 0 then k (x # xs) else None)"

text \<open>
  \<open>rmatch r s c k\<close> matches \<open>r\<close> at the front of \<open>s\<close> with the groups \<open>c\<close> captured so
  far, and hands the remaining input and the groups to \<open>k\<close>. An optional group is tried
  first and skipped only when the rest of the pattern fails with it.
\<close>

fun rmatch :: "regex \<Rightarrow> string \<Rightarrow> captures \<Rightarrow> (string \<Rightarrow> captures \<Rightarrow> 'r option) \<Rightarrow> 'r option" where
  "rmatch Bol s c k = k s c"
| "rmatch (Atom a) s c k =
     (case s of [] \<Rightarrow> None | x # xs \<Rightarrow> if atom_matches a x then k xs c else None)"
| "rmatch (Rep lo hi a) s c k = rep a lo hi s (\<lambda>s'. k s' c)"
| "rmatch (Opt r) s c k =
     (case rmatch r s c k of Some res \<Rightarrow> Some res | None \<Rightarrow> k s c)"
| "rmatch (Seq r1 r2) s c k = rmatch r1 s c (\<lambda>s' c'. rmatch r2 s' c' k)"
| "rmatch (Grp n r) s c k =
     rmatch r s c (\<lambda>s' c'. k s' ((n, take (length s - length s') s) # c'))"

text \<open>\<open>std::regex_match\<close>: the whole input has to be consumed.\<close>

definition regex_match :: "regex \<Rightarrow> string \<Rightarrow> captures option" where
  "regex_match r s = rmatch r s [] (\<lambda>s' c. if s' = [] then Some c else None)"

text \<open>\<open>m[i]\<close> as a string: empty when group \<open>i\<close> took no part in the match.\<close>

definition sub :: "captures \<Rightarrow> nat \<Rightarrow> string" where
  "sub m i = (case map_of m i of None \<Rightarrow> [] | Some s \<Rightarrow> s)"

definition star :: "atom \<Rightarrow> regex" where
  "star a = Rep 0 None a"

definition plus :: "atom \<Rightarrow> regex" where
  "plus a = Rep 1 None a"

fun cat :: "regex list \<Rightarrow> regex" where
  "cat [] = Bol"
| "cat [r] = r"
| "cat (r # rs) = Seq r (cat rs)"

text \<open>
  The pattern \<open>rs\<close> of \<open>open\<close>, group by group:
  \<^verbatim>\<open>^(([^:.@/?#]+):)?(/{0,2}((([^:@]*)(:([^@]*))?)@)?(([^:/?#]*)(:([^/?#]*))?))?([^?#]*)(\?([^#]*))?(#(.*))?\<close>
\<close>

definition rs :: regex where
  "rs = cat
     [Bol,
      Opt (Grp 1 (cat [Grp 2 (plus (NoneOf '':.@/?#'')), Atom (Chr CHR '':'')])),
      Opt (Grp 3 (cat
        [Rep 0 (Some 2) (Chr CHR ''/''),
         Opt (Grp 4 (cat
           [Grp 5 (cat
              [Grp 6 (star (NoneOf '':@'')),
               Opt (Grp 7 (cat [Atom (Chr CHR '':''), Grp 8 (star (NoneOf ''@''))]))]),
            Atom (Chr CHR ''@'')])),
         Grp 9 (cat
           [Grp 10 (star (NoneOf '':/?#'')),
            Opt (Grp 11 (cat [Atom (Chr CHR '':''), Grp 12 (star (NoneOf ''/?#''))]))])])),
      Grp 13 (star (NoneOf ''?#'')),
      Opt (Grp 14 (cat [Atom (Chr CHR ''?''), Grp 15 (star (NoneOf ''#''))])),
      Opt (Grp 16 (cat [Atom (Chr CHR ''#''), Grp 17 (star AnyChar)]))]"

section \<open>Data model\<close>

datatype State = Closed | Connecting | Open | Closing

text \<open>The states a transport reports to its state callback.\<close>

datatype TransportState = TDisconnected | TConnecting | TConnected | TCompleted | TFailed

text \<open>
  The exceptions of the source: \<open>std::logic_error\<close>, \<open>std::invalid_argument\<close> and
  \<open>std::runtime_error\<close>, each with its message. An operation returns its result, or the
  exception it throws, together with the endpoint as it is left.
\<close>

datatype exn = LogicError string | InvalidArgument string | RuntimeError string

datatype 'a result = Return 'a | Throw exn

fun discard :: "'a result \<Rightarrow> unit result" where
  "discard (Return x) = Return ()"
| "discard (Throw e) = Throw e"

text \<open>
  Modelled from the spec: \<open>Message\<close> and \<open>message_variant\<close> (message.hpp is not among the
  sources). A message is a byte vector tagged String, Binary or Control; the user sees a
  variant holding either bytes or a string. A byte is modelled by an 8-bit \<open>char\<close>.
\<close>

type_synonym binary = "char list"

datatype MessageType = Binary | String | Control

record Message =
  msg_type :: MessageType
  msg_data :: binary

datatype message_variant = VBinary binary | VString string

text \<open>
  Modelled from the spec: \<open>make_message\<close> and \<open>to_variant\<close> (message.cpp is not among the
  sources) convert between the two. \<open>receive\<close> and \<open>peek\<close> pass the message to
  \<open>to_variant\<close> as an rvalue (\<open>std::move\<close>), so the model returns the variant together
  with what is left in the message object: the bytes of a String message are copied into
  the string, the byte vector of any other message is moved into the variant and the
  object is left empty.
\<close>

fun make_message :: "message_variant \<Rightarrow> Message" where
  "make_message (VBinary b) = \<lparr>msg_type = Binary, msg_data = b\<rparr>"
| "make_message (VString s) = \<lparr>msg_type = String, msg_data = s\<rparr>"

definition to_variant :: "Message \<Rightarrow> message_variant \<times> Message" where
  "to_variant message =
     (case msg_type message of
        String \<Rightarrow> (VString (msg_data message), message)
      | _ \<Rightarrow> (VBinary (msg_data message), message\<lparr>msg_data := []\<rparr>))"

text \<open>
  Modelled from the spec: \<open>Configuration\<close> (websocket.hpp is not among the sources), with
  the options the operations below read or are said to ignore.
\<close>

record Configuration =
  disableTlsVerification :: bool
  protocols :: "string list"
  config_maxMessageSize :: nat

text \<open>
  The transports are external objects. A slot of the endpoint holds a shared pointer to
  one or is null; the model keeps, for each transport, the arguments it was constructed
  with.
\<close>

record TcpTransport =
  tcp_hostname :: string
  tcp_service :: string

record TlsTransport =
  tls_lower :: "TcpTransport option"
  tls_hostname :: string
  tls_verified :: bool

datatype Transport = OverTls TlsTransport | OverTcp TcpTransport

record WsConfiguration =
  host :: string
  path :: string
  ws_protocols :: "string list"

record WsTransport =
  ws_lower :: "Transport option"
  ws_config :: WsConfiguration

text \<open>
  What the endpoint does to its surroundings, in order: the user events it fires, and
  the calls it makes on its transports and on the thread pool.
\<close>

datatype effect =
    TriggerOpen
  | TriggerError string
  | TriggerClosed
  | TriggerAvailable nat
  | ResetCallbacks
  | TcpStart TcpTransport
  | TlsStart TlsTransport
  | WsStart WsTransport
  | WsClose
  | WsSend Message
  | StopTask "WsTransport option" "TlsTransport option" "TcpTransport option"

record WebSocket =
  mConfig :: Configuration
  mState :: State
  mScheme :: string
  mHostname :: string
  mService :: string
  mHost :: string
  mPath :: string
  mTcpTransport :: "TcpTransport option"
  mTlsTransport :: "TlsTransport option"
  mWsTransport :: "WsTransport option"
  mRecvQueue :: "Message list"
  effects :: "effect list"

text \<open>
  What the sources leave open: the constant \<open>DEFAULT_MAX_MESSAGE_SIZE\<close> (include.hpp),
  what \<open>Queue::push\<close> does with a new element (queue.hpp), and whether the build is
  for Windows (\<open>_WIN32\<close>).
\<close>

record env =
  DEFAULT_MAX_MESSAGE_SIZE :: nat
  queue_push :: "Message list \<Rightarrow> Message \<Rightarrow> Message list"
  win32 :: bool

text \<open>
  The constructor. \<open>dflt\<close> is the default-constructed \<open>Configuration()\<close>; the state
  starts as Closed.
\<close>

definition WebSocket_new :: "Configuration \<Rightarrow> Configuration option \<Rightarrow> WebSocket" where
  "WebSocket_new dflt config =
     \<lparr>mConfig = (case config of Some c \<Rightarrow> c | None \<Rightarrow> dflt),
      mState = Closed,
      mScheme = [], mHostname = [], mService = [], mHost = [], mPath = [],
      mTcpTransport = None, mTlsTransport = None, mWsTransport = None,
      mRecvQueue = [],
      effects = []\<rparr>"

section \<open>State changes, events and teardown\<close>

definition fire :: "effect \<Rightarrow> WebSocket \<Rightarrow> WebSocket" where
  "fire e s = s\<lparr>effects := effects s @ [e]\<rparr>"

text \<open>
  Modelled from the spec: the \<open>trigger\<close> functions and \<open>resetCallbacks\<close> of the base class
  \<open>Channel\<close> (channel.hpp is not among the sources) fire the user event of their name,
  and drop the user's callbacks. The model records each call.
\<close>

definition triggerOpen :: "WebSocket \<Rightarrow> WebSocket" where
  "triggerOpen = fire TriggerOpen"

definition triggerError :: "string \<Rightarrow> WebSocket \<Rightarrow> WebSocket" where
  "triggerError msg = fire (TriggerError msg)"

definition triggerClosed :: "WebSocket \<Rightarrow> WebSocket" where
  "triggerClosed = fire TriggerClosed"

definition triggerAvailable :: "nat \<Rightarrow> WebSocket \<Rightarrow> WebSocket" where
  "triggerAvailable n = fire (TriggerAvailable n)"

definition resetCallbacks :: "WebSocket \<Rightarrow> WebSocket" where
  "resetCallbacks = fire ResetCallbacks"

definition readyState :: "WebSocket \<Rightarrow> State" where
  "readyState s = mState s"

definition isOpen :: "WebSocket \<Rightarrow> bool" where
  "isOpen s = (mState s = Open)"

definition isClosed :: "WebSocket \<Rightarrow> bool" where
  "isClosed s = (mState s = Closed)"

text \<open>\<open>mState.exchange(state) != state\<close>\<close>

definition changeState :: "State \<Rightarrow> WebSocket \<Rightarrow> bool \<times> WebSocket" where
  "changeState state s = (mState s \<noteq> state, s\<lparr>mState := state\<rparr>)"

definition close :: "WebSocket \<Rightarrow> WebSocket" where
  "close s =
     (let state = mState s in
      if state = Connecting \<or> state = Open then
        (let s1 = snd (changeState Closing s) in
         case mWsTransport s1 of
           Some transport \<Rightarrow> fire WsClose s1
         | None \<Rightarrow> snd (changeState Closed s1))
      else s)"

text \<open>
  \<open>closeTransports\<close> empties the three slots and hands the transports they held to a
  thread pool task that stops them; the task is recorded as it is enqueued.
\<close>

definition closeTransports :: "WebSocket \<Rightarrow> WebSocket" where
  "closeTransports s =
     (let s1 = (if mState s \<noteq> Closed
                then triggerClosed (snd (changeState Closed s)) else s);
          s2 = resetCallbacks s1;
          ws = mWsTransport s2;
          tls = mTlsTransport s2;
          tcp = mTcpTransport s2;
          s3 = s2\<lparr>mWsTransport := None, mTlsTransport := None, mTcpTransport := None\<rparr>
      in fire (StopTask ws tls tcp) s3)"

definition remoteClose :: "WebSocket \<Rightarrow> WebSocket" where
  "remoteClose s = (if mState s \<noteq> Closed then closeTransports (close s) else s)"

section \<open>Sending and receiving\<close>

definition maxMessageSize :: "env \<Rightarrow> WebSocket \<Rightarrow> nat" where
  "maxMessageSize e s = DEFAULT_MAX_MESSAGE_SIZE e"

text \<open>
  \<open>accepted\<close> is what \<open>WsTransport::send\<close> answers for this message; the transport is
  external.
\<close>

definition outgoing :: "env \<Rightarrow> bool \<Rightarrow> Message \<Rightarrow> WebSocket \<Rightarrow> bool result \<times> WebSocket" where
  "outgoing e accepted message s =
     (if mState s \<noteq> Open \<or> mWsTransport s = None
      then (Throw (RuntimeError ''WebSocket is not open''), s)
      else if length (msg_data message) > maxMessageSize e s
      then (Throw (RuntimeError ''Message size exceeds limit''), s)
      else (Return accepted, fire (WsSend message) s))"

definition send :: "env \<Rightarrow> bool \<Rightarrow> message_variant \<Rightarrow> WebSocket \<Rightarrow> bool result \<times> WebSocket" where
  "send e accepted data s = outgoing e accepted (make_message data) s"

text \<open>
  Modelled from the spec: the receive queue (queue.hpp is not among the sources) is a
  FIFO; \<open>tryPop\<close> removes and returns the oldest element if there is one, \<open>peek\<close> returns
  it and leaves it in place, \<open>size\<close> counts the elements. The queue holds shared
  pointers, so what \<open>peek\<close> returns is the very object at the head of the queue.
\<close>

definition tryPop :: "'a list \<Rightarrow> 'a option \<times> 'a list" where
  "tryPop q = (case q of [] \<Rightarrow> (None, []) | x # xs \<Rightarrow> (Some x, xs))"

definition queue_peek :: "'a list \<Rightarrow> 'a option" where
  "queue_peek q = (case q of [] \<Rightarrow> None | x # xs \<Rightarrow> Some x)"

definition queue_size :: "'a list \<Rightarrow> nat" where
  "queue_size q = length q"

function receive_loop :: "Message list \<Rightarrow> message_variant option \<times> Message list" where
  "receive_loop q =
     (case tryPop q of
        (None, q') \<Rightarrow> (None, q')
      | (Some message, q') \<Rightarrow>
          if msg_type message \<noteq> Control then (Some (fst (to_variant message)), q')
          else receive_loop q')"
  by pat_completeness auto
termination
  by (relation "measure length") (auto simp: tryPop_def split: list.splits)

declare receive_loop.simps [simp del]

definition receive :: "WebSocket \<Rightarrow> message_variant option \<times> WebSocket" where
  "receive s = (case receive_loop (mRecvQueue s) of (r, q) \<Rightarrow> (r, s\<lparr>mRecvQueue := q\<rparr>))"

text \<open>
  \<open>peek\<close> hands the head of the queue itself to \<open>to_variant\<close>, so what \<open>to_variant\<close> leaves
  in the message is what stays at the head.
\<close>

function peek_loop :: "Message list \<Rightarrow> message_variant option \<times> Message list" where
  "peek_loop q =
     (case queue_peek q of
        None \<Rightarrow> (None, q)
      | Some message \<Rightarrow>
          if msg_type message \<noteq> Control
          then (case to_variant message of (v, left) \<Rightarrow> (Some v, q[0 := left]))
          else peek_loop (snd (tryPop q)))"
  by pat_completeness auto
termination
  by (relation "measure length") (auto simp: tryPop_def queue_peek_def split: list.splits)

declare peek_loop.simps [simp del]

definition peek :: "WebSocket \<Rightarrow> message_variant option \<times> WebSocket" where
  "peek s = (case peek_loop (mRecvQueue s) of (r, q) \<Rightarrow> (r, s\<lparr>mRecvQueue := q\<rparr>))"

text \<open>\<open>incoming\<close>: the message callback of the WS transport; a null pointer is \<open>None\<close>.\<close>

definition incoming :: "env \<Rightarrow> Message option \<Rightarrow> WebSocket \<Rightarrow> WebSocket" where
  "incoming e msg s =
     (case msg of
        None \<Rightarrow> remoteClose s
      | Some message \<Rightarrow>
          if msg_type message = String \<or> msg_type message = Binary then
            (let s1 = s\<lparr>mRecvQueue := queue_push e (mRecvQueue s) message\<rparr>
             in triggerAvailable (queue_size (mRecvQueue s1)) s1)
          else s)"

section \<open>Building the transport stack\<close>

text \<open>
  Constructing a transport and starting it are calls into external code inside a
  \<open>try\<close> block; \<open>init_outcome\<close> says whether one of them throws. The handler calls
  \<open>remoteClose\<close> and throws the builder's own error.
\<close>

datatype init_outcome = Started | ConstructorThrows | StartThrows

definition init_failed :: "string \<Rightarrow> WebSocket \<Rightarrow> 'a result \<times> WebSocket" where
  "init_failed msg s = (Throw (RuntimeError msg), remoteClose s)"

definition initTcpTransport :: "init_outcome \<Rightarrow> WebSocket \<Rightarrow> TcpTransport result \<times> WebSocket" where
  "initTcpTransport oc s =
     (case mTcpTransport s of
        Some transport \<Rightarrow> (Return transport, s)
      | None \<Rightarrow>
          if oc = ConstructorThrows
          then init_failed ''TCP transport initialization failed'' s
          else
            (let transport = \<lparr>tcp_hostname = mHostname s, tcp_service = mService s\<rparr>;
                 s1 = s\<lparr>mTcpTransport := Some transport\<rparr>
             in if mState s1 = Closed
                then init_failed ''TCP transport initialization failed''
                       (s1\<lparr>mTcpTransport := None\<rparr>)
                else if oc = StartThrows
                then init_failed ''TCP transport initialization failed'' s1
                else (Return transport, fire (TcpStart transport) s1)))"

definition initTlsTransport :: "env \<Rightarrow> init_outcome \<Rightarrow> WebSocket \<Rightarrow> TlsTransport result \<times> WebSocket" where
  "initTlsTransport e oc s =
     (case mTlsTransport s of
        Some transport \<Rightarrow> (Return transport, s)
      | None \<Rightarrow>
          if oc = ConstructorThrows
          then init_failed ''TLS transport initialization failed'' s
          else
            (let lower = mTcpTransport s;
                 transport = \<lparr>tls_lower = lower, tls_hostname = mHostname s,
                              tls_verified =
                                (\<not> win32 e \<and> \<not> disableTlsVerification (mConfig s))\<rparr>;
                 s1 = s\<lparr>mTlsTransport := Some transport\<rparr>
             in if mState s1 = Closed
                then init_failed ''TLS transport initialization failed''
                       (s1\<lparr>mTlsTransport := None\<rparr>)
                else if oc = StartThrows
                then init_failed ''TLS transport initialization failed'' s1
                else (Return transport, fire (TlsStart transport) s1)))"

definition initWsTransport :: "init_outcome \<Rightarrow> WebSocket \<Rightarrow> WsTransport result \<times> WebSocket" where
  "initWsTransport oc s =
     (case mWsTransport s of
        Some transport \<Rightarrow> (Return transport, s)
      | None \<Rightarrow>
          if oc = ConstructorThrows
          then init_failed ''WebSocket transport initialization failed'' s
          else
            (let lower = (case mTlsTransport s of
                            Some tls \<Rightarrow> Some (OverTls tls)
                          | None \<Rightarrow> map_option OverTcp (mTcpTransport s));
                 wsConfig = \<lparr>host = mHost s, path = mPath s,
                             ws_protocols = protocols (mConfig s)\<rparr>;
                 transport = \<lparr>ws_lower = lower, ws_config = wsConfig\<rparr>;
                 s1 = s\<lparr>mWsTransport := Some transport\<rparr>
             in if mState s1 = Closed
                then init_failed ''WebSocket transport initialization failed''
                       (s1\<lparr>mWsTransport := None\<rparr>)
                else if oc = StartThrows
                then init_failed ''WebSocket transport initialization failed'' s1
                else (Return transport, fire (WsStart transport) s1)))"

text \<open>
  The state callbacks the three builders give to their transports. They are run by the
  transport, with the endpoint alive (a callback that finds it gone returns at once).
  An exception of a builder called from a callback leaves through the callback.
\<close>

definition tcp_stateChangeCallback ::
  "env \<Rightarrow> init_outcome \<Rightarrow> TransportState \<Rightarrow> WebSocket \<Rightarrow> unit result \<times> WebSocket" where
  "tcp_stateChangeCallback e oc state s =
     (case state of
        TConnected \<Rightarrow>
          if mScheme s = ''ws''
          then (case initWsTransport oc s of (r, s') \<Rightarrow> (discard r, s'))
          else (case initTlsTransport e oc s of (r, s') \<Rightarrow> (discard r, s'))
      | TFailed \<Rightarrow> (Return (), remoteClose (triggerError ''TCP connection failed'' s))
      | TDisconnected \<Rightarrow> (Return (), remoteClose s)
      | _ \<Rightarrow> (Return (), s))"

definition tls_stateChangeCallback ::
  "init_outcome \<Rightarrow> TransportState \<Rightarrow> WebSocket \<Rightarrow> unit result \<times> WebSocket" where
  "tls_stateChangeCallback oc state s =
     (case state of
        TConnected \<Rightarrow> (case initWsTransport oc s of (r, s') \<Rightarrow> (discard r, s'))
      | TFailed \<Rightarrow> (Return (), remoteClose (triggerError ''TCP connection failed'' s))
      | TDisconnected \<Rightarrow> (Return (), remoteClose s)
      | _ \<Rightarrow> (Return (), s))"

definition ws_stateChangeCallback :: "TransportState \<Rightarrow> WebSocket \<Rightarrow> WebSocket" where
  "ws_stateChangeCallback state s =
     (case state of
        TConnected \<Rightarrow>
          if mState s = Connecting
          then triggerOpen (snd (changeState Open s))
          else s
      | TFailed \<Rightarrow> remoteClose (triggerError ''WebSocket connection failed'' s)
      | TDisconnected \<Rightarrow> remoteClose s
      | _ \<Rightarrow> s)"

section \<open>Opening\<close>

text \<open>
  The two loops of \<open>open\<close> that erase every \<open>[\<close> at the front of the hostname and pop
  every \<open>]\<close> at its back.
\<close>

definition erase_front :: "string \<Rightarrow> string" where
  "erase_front h = dropWhile (\<lambda>c. c = CHR ''['') h"

definition pop_back :: "string \<Rightarrow> string" where
  "pop_back h = rev (dropWhile (\<lambda>c. c = CHR '']'') (rev h))"

text \<open>Lines 76 to 94 of \<open>open\<close>: the fields set from a match with an accepted scheme.\<close>

definition set_fields :: "captures \<Rightarrow> WebSocket \<Rightarrow> WebSocket" where
  "set_fields m s =
     (let s1 = s\<lparr>mHostname := sub m 10, mService := sub m 12\<rparr>;
          s2 = (if mService s1 = []
                then s1\<lparr>mService := (if mScheme s1 = ''ws'' then ''80'' else ''443''),
                        mHost := mHostname s1\<rparr>
                else s1\<lparr>mHost := mHostname s1 @ '':'' @ mService s1\<rparr>);
          s3 = s2\<lparr>mHostname := pop_back (erase_front (mHostname s2))\<rparr>;
          s4 = s3\<lparr>mPath := sub m 13\<rparr>;
          s5 = (if mPath s4 = [] then s4\<lparr>mPath := mPath s4 @ ''/''\<rparr> else s4);
          query = sub m 15
      in if query \<noteq> [] then s5\<lparr>mPath := mPath s5 @ ''?'' @ query\<rparr> else s5)"

text \<open>
  \<open>WebSocket::open\<close>, named \<open>open_op\<close> because \<open>open\<close> is a reserved word. \<open>oc\<close> is the
  outcome of building the TCP transport.
\<close>

definition open_op :: "init_outcome \<Rightarrow> string \<Rightarrow> WebSocket \<Rightarrow> unit result \<times> WebSocket" where
  "open_op oc url s =
     (if mState s \<noteq> Closed
      then (Throw (LogicError ''WebSocket must be closed before opening''), s)
      else
        (case regex_match rs url of
           None \<Rightarrow> (Throw (InvalidArgument (''Invalid WebSocket URL: '' @ url)), s)
         | Some m \<Rightarrow>
             if length (sub m 10) = 0
             then (Throw (InvalidArgument (''Invalid WebSocket URL: '' @ url)), s)
             else
               (let s1 = s\<lparr>mScheme := sub m 2\<rparr> in
                if mScheme s1 \<noteq> [] \<and> mScheme s1 \<noteq> ''ws'' \<and> mScheme s1 \<noteq> ''wss''
                then (Throw (InvalidArgument (''Invalid WebSocket scheme: '' @ mScheme s1)), s1)
                else
                  (let s2 = (if mScheme s1 = [] then s1\<lparr>mScheme := ''ws''\<rparr> else s1);
                       s3 = set_fields m s2;
                       s4 = snd (changeState Connecting s3)
                   in case initTcpTransport oc s4 of (r, s') \<Rightarrow> (discard r, s')))))"

section \<open>Runs of the endpoint\<close>

text \<open>
  \<open>closeTransports\<close> hands the transports it takes out of the slots to a thread pool
  task. Until the pool runs the task and stops them, these transports are alive and
  can still call back: the callbacks test only that the endpoint exists, not that the
  transport is the one in the slot. So next to the endpoint a run keeps the tasks that
  were enqueued and have not run yet.
\<close>

type_synonym stop_task = "WsTransport option \<times> TlsTransport option \<times> TcpTransport option"

record world =
  endpoint :: WebSocket
  pool :: "stop_task list"

definition new_world :: "Configuration \<Rightarrow> Configuration option \<Rightarrow> world" where
  "new_world dflt config = \<lparr>endpoint = WebSocket_new dflt config, pool = []\<rparr>"

fun task_of :: "effect \<Rightarrow> stop_task list" where
  "task_of (StopTask ws tls tcp) = [(ws, tls, tcp)]"
| "task_of _ = []"

text \<open>The tasks enqueued on the way from \<open>s\<close> to \<open>s'\<close>.\<close>

definition enqueued :: "WebSocket \<Rightarrow> WebSocket \<Rightarrow> stop_task list" where
  "enqueued s s' = concat (map task_of (drop (length (effects s)) (effects s')))"

text \<open>
  What can happen: a call of the user, a callback of a transport, or the pool running
  one of its tasks. \<open>act\<close> is what the action does to the endpoint.
\<close>

datatype action =
    UserOpen string init_outcome
  | UserClose
  | UserSend message_variant bool
  | UserReceive
  | UserPeek
  | TcpState TransportState init_outcome
  | TlsState TransportState init_outcome
  | WsState TransportState
  | WsMessage "Message option"
  | PoolTask nat

fun act :: "env \<Rightarrow> action \<Rightarrow> WebSocket \<Rightarrow> WebSocket" where
  "act e (UserOpen url oc) s = snd (open_op oc url s)"
| "act e UserClose s = close s"
| "act e (UserSend data accepted) s = snd (send e accepted data s)"
| "act e UserReceive s = snd (receive s)"
| "act e UserPeek s = snd (peek s)"
| "act e (TcpState state oc) s = snd (tcp_stateChangeCallback e oc state s)"
| "act e (TlsState state oc) s = snd (tls_stateChangeCallback oc state s)"
| "act e (WsState state) s = ws_stateChangeCallback state s"
| "act e (WsMessage msg) s = incoming e msg s"
| "act e (PoolTask n) s = s"

text \<open>
  A callback needs a transport of its layer that is alive: in its slot, or in a task the
  pool has not run yet. The pool can run any task it holds.
\<close>

fun alive :: "action \<Rightarrow> world \<Rightarrow> bool" where
  "alive (TcpState state oc) w =
     (mTcpTransport (endpoint w) \<noteq> None \<or> list_ex (\<lambda>(ws, tls, tcp). tcp \<noteq> None) (pool w))"
| "alive (TlsState state oc) w =
     (mTlsTransport (endpoint w) \<noteq> None \<or> list_ex (\<lambda>(ws, tls, tcp). tls \<noteq> None) (pool w))"
| "alive (WsState state) w =
     (mWsTransport (endpoint w) \<noteq> None \<or> list_ex (\<lambda>(ws, tls, tcp). ws \<noteq> None) (pool w))"
| "alive (WsMessage msg) w =
     (mWsTransport (endpoint w) \<noteq> None \<or> list_ex (\<lambda>(ws, tls, tcp). ws \<noteq> None) (pool w))"
| "alive (PoolTask n) w = (n < length (pool w))"
| "alive a w = True"

fun remaining :: "action \<Rightarrow> stop_task list \<Rightarrow> stop_task list" where
  "remaining (PoolTask n) ts = take n ts @ drop (Suc n) ts"
| "remaining a ts = ts"

definition exec :: "env \<Rightarrow> action \<Rightarrow> world \<Rightarrow> world option" where
  "exec e a w =
     (if alive a w
      then Some \<lparr>endpoint = act e a (endpoint w),
                 pool = remaining a (pool w) @ enqueued (endpoint w) (act e a (endpoint w))\<rparr>
      else None)"

fun run :: "env \<Rightarrow> action list \<Rightarrow> world \<Rightarrow> world option" where
  "run e [] w = Some w"
| "run e (a # as) w = (case exec e a w of None \<Rightarrow> None | Some w' \<Rightarrow> run e as w')"



section \<open>Notions used in the statements\<close>

text \<open>
  A URL as the specification describes it,
  \<^verbatim>\<open>[scheme:]//[user[:pass]@]host[:port][path][?query][#fragment]\<close>,
  given by its parts. \<open>spec_url\<close> writes the parts out. This is independent of the
  pattern \<open>open\<close> uses.
\<close>

record url_parts =
  u_scheme :: "string option"
  u_userinfo :: "(string \<times> string option) option"
  u_host :: string
  u_port :: "string option"
  u_path :: string
  u_query :: "string option"
  u_fragment :: "string option"

definition opt_part :: "char \<Rightarrow> string option \<Rightarrow> string" where
  "opt_part d p = (case p of None \<Rightarrow> [] | Some x \<Rightarrow> d # x)"

definition opt_str :: "string option \<Rightarrow> string" where
  "opt_str p = (case p of None \<Rightarrow> [] | Some x \<Rightarrow> x)"

definition scheme_part :: "string option \<Rightarrow> string" where
  "scheme_part p = (case p of None \<Rightarrow> [] | Some x \<Rightarrow> x @ '':'')"

definition userinfo_part :: "(string \<times> string option) option \<Rightarrow> string" where
  "userinfo_part p =
     (case p of None \<Rightarrow> [] | Some (user, pass) \<Rightarrow> user @ opt_part CHR '':'' pass @ ''@'')"

definition spec_url :: "url_parts \<Rightarrow> string" where
  "spec_url u =
     scheme_part (u_scheme u) @ ''//'' @ userinfo_part (u_userinfo u) @ u_host u
       @ opt_part CHR '':'' (u_port u) @ u_path u @ opt_part CHR ''?'' (u_query u)
       @ opt_part CHR ''#'' (u_fragment u)"

text \<open>
  The parts are well formed when no part holds a character that ends it: a scheme is
  not empty and has none of \<open>:.@/?#\<close>, user and host have none of \<open>:@/?#\<close>, a password
  and a port none of \<open>@/?#\<close>, the path is empty or starts with \<open>/\<close> and has none of
  \<open>?#@\<close>, the query has none of \<open>#@\<close>, and the fragment has no \<open>@\<close> and no NUL. The host
  may be empty and may have brackets.
\<close>

definition none_of :: "string \<Rightarrow> string \<Rightarrow> bool" where
  "none_of cs x \<longleftrightarrow> (\<forall>ch \<in> set x. ch \<notin> set cs)"

definition well_formed :: "url_parts \<Rightarrow> bool" where
  "well_formed u \<longleftrightarrow>
     (case u_scheme u of None \<Rightarrow> True | Some sch \<Rightarrow> sch \<noteq> [] \<and> none_of '':.@/?#'' sch)
     \<and> (case u_userinfo u of
           None \<Rightarrow> True
         | Some (user, pass) \<Rightarrow>
             none_of '':@/?#'' user
             \<and> (case pass of None \<Rightarrow> True | Some pw \<Rightarrow> none_of ''@/?#'' pw))
     \<and> none_of '':/?#@'' (u_host u)
     \<and> (case u_port u of None \<Rightarrow> True | Some p \<Rightarrow> none_of ''/?#@'' p)
     \<and> (u_path u = [] \<or> hd (u_path u) = CHR ''/'')
     \<and> none_of ''?#@'' (u_path u)
     \<and> (case u_query u of None \<Rightarrow> True | Some q \<Rightarrow> none_of ''#@'' q)
     \<and> (case u_fragment u of None \<Rightarrow> True | Some f \<Rightarrow> none_of [CHR ''@'', CHR 0x00] f)"

text \<open>The schemes \<open>open\<close> lets through: none, \<open>ws\<close> or \<open>wss\<close>.\<close>

definition accepted_scheme :: "string \<Rightarrow> bool" where
  "accepted_scheme sch \<longleftrightarrow> sch = [] \<or> sch = ''ws'' \<or> sch = ''wss''"


text \<open>
  For following a match through the pattern: \<open>yields r Q\<close> says that the match \<open>r\<close>
  succeeds with a result that satisfies \<open>Q\<close>; the other three are the groups an
  optional part of the URL leaves behind.
\<close>

definition yields :: "'r option \<Rightarrow> ('r \<Rightarrow> bool) \<Rightarrow> bool" where
  "yields r Q \<longleftrightarrow> (\<exists>m. r = Some m \<and> Q m)"

definition opt_caps :: "nat \<Rightarrow> nat \<Rightarrow> char \<Rightarrow> string option \<Rightarrow> captures" where
  "opt_caps n1 n2 d p = (case p of None \<Rightarrow> [] | Some x \<Rightarrow> [(n1, d # x), (n2, x)])"

definition scheme_caps :: "string option \<Rightarrow> captures" where
  "scheme_caps p = (case p of None \<Rightarrow> [] | Some x \<Rightarrow> [(1, x @ '':''), (2, x)])"

definition userinfo_caps :: "(string \<times> string option) option \<Rightarrow> captures" where
  "userinfo_caps p =
     (case p of
        None \<Rightarrow> []
      | Some (user, pass) \<Rightarrow>
          [(4, user @ opt_part CHR '':'' pass @ ''@''), (5, user @ opt_part CHR '':'' pass)]
            @ opt_caps 7 8 CHR '':'' pass @ [(6, user)])"

subsection \<open>Example endpoints\<close>

definition example_config :: Configuration where
  "example_config =
     \<lparr>disableTlsVerification = False, protocols = [], config_maxMessageSize = 4\<rparr>"

definition example_env :: env where
  "example_env =
     \<lparr>DEFAULT_MAX_MESSAGE_SIZE = 8, queue_push = (\<lambda>q m. q @ [m]), win32 = False\<rparr>"

definition fresh :: WebSocket where
  "fresh = WebSocket_new example_config None"

definition example_connecting :: WebSocket where
  "example_connecting = snd (open_op Started ''ws://h:81/p?q#f'' fresh)"

definition example_ws_started :: WebSocket where
  "example_ws_started =
     snd (tcp_stateChangeCallback example_env Started TConnected example_connecting)"

definition example_open :: WebSocket where
  "example_open = ws_stateChangeCallback TConnected example_ws_started"

definition example_closed :: WebSocket where
  "example_closed = close example_connecting"

definition example_queue :: "Message list" where
  "example_queue =
     [\<lparr>msg_type = Control, msg_data = ''p''\<rparr>,
      \<lparr>msg_type = String, msg_data = ''hi''\<rparr>,
      \<lparr>msg_type = Binary, msg_data = ''b''\<rparr>]"

text \<open>
  An endpoint that was torn down while its WS transport was connecting and opened
  again, and then receives the Connected callback of that first WS transport, which
  is still waiting in the pool to be stopped.
\<close>

definition example_torn_down :: WebSocket where
  "example_torn_down =
     snd (tcp_stateChangeCallback example_env Started TDisconnected example_ws_started)"

definition example_reopened :: WebSocket where
  "example_reopened = snd (open_op Started ''ws://h:81/'' example_torn_down)"

definition example_stale_open :: WebSocket where
  "example_stale_open = ws_stateChangeCallback TConnected example_reopened"

definition example_stale_run :: "action list" where
  "example_stale_run =
     [UserOpen ''ws://h:81/p?q#f'' Started, TcpState TConnected Started,
      TcpState TDisconnected Started, UserOpen ''ws://h:81/'' Started, WsState TConnected]"

definition example_stale_world :: world where
  "example_stale_world =
     \<lparr>endpoint = example_stale_open,
      pool = [(mWsTransport example_ws_started, None, mTcpTransport example_ws_started)]\<rparr>"



definition example_no_host :: url_parts where
  "example_no_host =
     \<lparr>u_scheme = Some ''ws'', u_userinfo = None, u_host = [], u_port = None, u_path = [],
      u_query = None, u_fragment = None\<rparr>"

definition example_http :: url_parts where
  "example_http =
     \<lparr>u_scheme = Some ''http'', u_userinfo = None, u_host = ''x'', u_port = None,
      u_path = ''/'', u_query = None, u_fragment = None\<rparr>"

section \<open>Teardown\<close>


lemma mState_closeTransports: "mState (closeTransports s) = Closed"
  by (simp add: closeTransports_def changeState_def fire_def Let_def triggerClosed_def
      resetCallbacks_def)

lemma mState_remoteClose: "mState (remoteClose s) = Closed"
  by (simp add: remoteClose_def mState_closeTransports)

lemma effects_close: "\<exists>es. effects (close s) = effects s @ es"
  by (simp add: close_def changeState_def fire_def Let_def split: option.splits)

lemma effects_closeTransports: "\<exists>es. effects (closeTransports s) = effects s @ es"
  by (simp add: closeTransports_def changeState_def fire_def Let_def triggerClosed_def
      resetCallbacks_def)

lemma effects_remoteClose: "\<exists>es. effects (remoteClose s) = effects s @ es"
proof (cases "mState s = Closed")
  case True
  then show ?thesis by (simp add: remoteClose_def)
next
  case False
  obtain es1 where e1: "effects (close s) = effects s @ es1"
    using effects_close by blast
  obtain es2 where e2: "effects (closeTransports (close s)) = effects (close s) @ es2"
    using effects_closeTransports by blast
  from False e1 e2 show ?thesis by (simp add: remoteClose_def)
qed




text \<open>
  C2. \<open>close\<close> changes the state only from Connecting or Open: the state becomes
  Closing, and Closed at once when there is no WS transport. In state Closed or Closing
  \<open>close\<close> changes nothing.
\<close>

theorem close_changes_state:
  "(mState s = Connecting \<or> mState s = Open \<longrightarrow>
      mState (close s) = (if mWsTransport s = None then Closed else Closing))
   \<and> (mState s = Closed \<or> mState s = Closing \<longrightarrow> close s = s)"
  by (auto simp: close_def changeState_def fire_def Let_def split: option.splits)

text \<open>
  C9. \<open>remoteClose\<close> is idempotent: a second call changes nothing, and on a Closed
  endpoint the first call changes nothing either.
\<close>

theorem remoteClose_idempotent:
  "remoteClose (remoteClose s) = remoteClose s \<and> (mState s = Closed \<longrightarrow> remoteClose s = s)"
proof -
  have "remoteClose (remoteClose s) = remoteClose s"
    using mState_remoteClose [of s] by (simp add: remoteClose_def [of "remoteClose s"])
  moreover have "mState s = Closed \<longrightarrow> remoteClose s = s"
    by (simp add: remoteClose_def)
  ultimately show ?thesis by simp
qed


section \<open>The receive queue\<close>

lemma fst_to_variant:
  "fst (to_variant m) =
     (case msg_type m of String \<Rightarrow> VString (msg_data m) | _ \<Rightarrow> VBinary (msg_data m))"
  by (simp add: to_variant_def split: MessageType.splits)

lemma receive_loop_dropWhile:
  "receive_loop q =
     (case dropWhile (\<lambda>m. msg_type m = Control) q of
        [] \<Rightarrow> (None, [])
      | m # rest \<Rightarrow>
          (Some (case msg_type m of String \<Rightarrow> VString (msg_data m) | _ \<Rightarrow> VBinary (msg_data m)),
           rest))"
proof (induction q)
  case Nil
  show ?case by (simp add: receive_loop.simps [of "[]"] tryPop_def)
next
  case (Cons a q)
  then show ?case by (simp add: receive_loop.simps [of "a # q"] tryPop_def fst_to_variant)
qed

lemma peek_loop_dropWhile:
  "peek_loop q =
     (case dropWhile (\<lambda>m. msg_type m = Control) q of
        [] \<Rightarrow> (None, [])
      | m # rest \<Rightarrow> (Some (fst (to_variant m)), snd (to_variant m) # rest))"
proof (induction q)
  case Nil
  show ?case by (simp add: peek_loop.simps [of "[]"] queue_peek_def)
next
  case (Cons a q)
  then show ?case
    by (simp add: peek_loop.simps [of "a # q"] queue_peek_def tryPop_def split: prod.splits)
qed

lemma queue_case_distrib:
  "(case (case d of [] \<Rightarrow> (None, []) | m # rest \<Rightarrow> (Some (f m), g m rest)) of
      (r, q) \<Rightarrow> (r, s\<lparr>mRecvQueue := q\<rparr>)) =
   (case d of [] \<Rightarrow> (None, s\<lparr>mRecvQueue := []\<rparr>)
    | m # rest \<Rightarrow> (Some (f m), s\<lparr>mRecvQueue := g m rest\<rparr>))"
  by (cases d) simp_all

text \<open>
  C4. \<open>receive\<close> pops the Control messages at the front of the queue and then the first
  message that is not Control, which it returns as a string or as bytes; it returns
  nothing, and leaves the queue empty, when every message is Control. What it returns
  comes from a message that is not Control.
\<close>

theorem receive_first_application:
  "receive s =
     (case dropWhile (\<lambda>m. msg_type m = Control) (mRecvQueue s) of
        [] \<Rightarrow> (None, s\<lparr>mRecvQueue := []\<rparr>)
      | m # rest \<Rightarrow>
          (Some (case msg_type m of String \<Rightarrow> VString (msg_data m) | _ \<Rightarrow> VBinary (msg_data m)),
           s\<lparr>mRecvQueue := rest\<rparr>))
   \<and> (\<forall>v. fst (receive s) = Some v \<longrightarrow>
         (\<exists>pre m rest. mRecvQueue s = pre @ m # rest
            \<and> (\<forall>c \<in> set pre. msg_type c = Control)
            \<and> msg_type m \<noteq> Control
            \<and> v = (case msg_type m of String \<Rightarrow> VString (msg_data m) | _ \<Rightarrow> VBinary (msg_data m))
            \<and> mRecvQueue (snd (receive s)) = rest))"
proof -
  let ?P = "\<lambda>m. msg_type m = Control"
  let ?q = "mRecvQueue s"
  have eq: "receive s =
     (case dropWhile ?P ?q of
        [] \<Rightarrow> (None, s\<lparr>mRecvQueue := []\<rparr>)
      | m # rest \<Rightarrow>
          (Some (case msg_type m of String \<Rightarrow> VString (msg_data m) | _ \<Rightarrow> VBinary (msg_data m)),
           s\<lparr>mRecvQueue := rest\<rparr>))"
    by (simp only: receive_def receive_loop_dropWhile queue_case_distrib)
  have "\<exists>pre m rest. ?q = pre @ m # rest \<and> (\<forall>c \<in> set pre. ?P c) \<and> \<not> ?P m
          \<and> v = (case msg_type m of String \<Rightarrow> VString (msg_data m) | _ \<Rightarrow> VBinary (msg_data m))
          \<and> mRecvQueue (snd (receive s)) = rest"
    if v: "fst (receive s) = Some v" for v
  proof (cases "dropWhile ?P ?q")
    case Nil
    with v eq show ?thesis by simp
  next
    case (Cons m rest)
    have split: "?q = takeWhile ?P ?q @ m # rest"
      using Cons takeWhile_dropWhile_id [of ?P ?q] by simp
    have notc: "\<not> ?P m"
      using Cons hd_dropWhile [of ?P ?q] by auto
    have pre: "\<forall>c \<in> set (takeWhile ?P ?q). ?P c"
      by (auto dest: set_takeWhileD)
    from v eq Cons have
      "v = (case msg_type m of String \<Rightarrow> VString (msg_data m) | _ \<Rightarrow> VBinary (msg_data m))"
      "mRecvQueue (snd (receive s)) = rest"
      by simp_all
    with split notc pre show ?thesis by blast
  qed
  with eq show ?thesis by blast
qed

text \<open>
  \<open>peek\<close> pops the Control messages at the front and returns the first message that is
  not Control; at the head of the queue it leaves what \<open>to_variant\<close> left of that
  message, which for a String message is the message itself.
\<close>

lemma peek_drains_control:
  "peek s =
     (case dropWhile (\<lambda>m. msg_type m = Control) (mRecvQueue s) of
        [] \<Rightarrow> (None, s\<lparr>mRecvQueue := []\<rparr>)
      | m # rest \<Rightarrow>
          (Some (fst (to_variant m)), s\<lparr>mRecvQueue := snd (to_variant m) # rest\<rparr>))"
  by (simp only: peek_def peek_loop_dropWhile queue_case_distrib)

lemma to_variant_String: "msg_type m = String \<Longrightarrow> snd (to_variant m) = m"
  by (simp add: to_variant_def)

text \<open>
  C5, at the queue holding one Binary message with the bytes "abc": \<open>peek\<close> returns the
  bytes, the message stays at the head of the queue but its bytes are gone, and the
  \<open>receive\<close> that follows returns an empty Binary message.
\<close>

theorem peek_empties_binary_message:
  "fst (peek (fresh\<lparr>mRecvQueue := [\<lparr>msg_type = Binary, msg_data = ''abc''\<rparr>]\<rparr>))
     = Some (VBinary ''abc'')
   \<and> mRecvQueue (snd (peek (fresh\<lparr>mRecvQueue := [\<lparr>msg_type = Binary, msg_data = ''abc''\<rparr>]\<rparr>)))
     = [\<lparr>msg_type = Binary, msg_data = []\<rparr>]
   \<and> fst (receive (snd (peek (fresh\<lparr>mRecvQueue := [\<lparr>msg_type = Binary, msg_data = ''abc''\<rparr>]\<rparr>))))
     = Some (VBinary [])"
  by (simp add: peek_def receive_def peek_loop_dropWhile receive_loop_dropWhile to_variant_def
      fresh_def WebSocket_new_def)

section \<open>Sending\<close>

text \<open>
  C10. \<open>maxMessageSize\<close> is \<open>DEFAULT_MAX_MESSAGE_SIZE\<close> whatever the configuration holds.
  On an Open endpoint with a WS transport, \<open>send\<close> refuses a message for its size exactly
  when the message is longer than \<open>DEFAULT_MAX_MESSAGE_SIZE\<close>; a message of at most that
  length, so also one of exactly that length, goes to the WS transport.
\<close>

theorem maxMessageSize_is_default:
  "maxMessageSize e (s\<lparr>mConfig := c\<rparr>) = DEFAULT_MAX_MESSAGE_SIZE e
   \<and> (mState s = Open \<and> mWsTransport s \<noteq> None \<longrightarrow>
        (fst (send e accepted data s) = Throw (RuntimeError ''Message size exceeds limit'')
           \<longleftrightarrow> DEFAULT_MAX_MESSAGE_SIZE e < length (msg_data (make_message data)))
      \<and> (length (msg_data (make_message data)) \<le> DEFAULT_MAX_MESSAGE_SIZE e \<longrightarrow>
           send e accepted data s = (Return accepted, fire (WsSend (make_message data)) s)))"
  by (auto simp: maxMessageSize_def send_def outgoing_def)

text \<open>
  C3, amended. \<open>send\<close> throws the runtime error "WebSocket is not open" when the state is
  not Open or the WS slot is empty, and the runtime error "Message size exceeds limit"
  when the state is Open, the WS slot holds a transport and the message is longer than
  \<open>maxMessageSize\<close>; both leave the endpoint as it was. Otherwise the message goes to
  the WS transport and \<open>send\<close> returns what the transport answers.
\<close>

theorem send_checks_state_slot_and_size:
  "(mState s \<noteq> Open \<or> mWsTransport s = None \<longrightarrow>
      send e accepted data s = (Throw (RuntimeError ''WebSocket is not open''), s))
   \<and> (mState s = Open \<and> mWsTransport s \<noteq> None
        \<and> maxMessageSize e s < length (msg_data (make_message data)) \<longrightarrow>
      send e accepted data s = (Throw (RuntimeError ''Message size exceeds limit''), s))
   \<and> (mState s = Open \<and> mWsTransport s \<noteq> None
        \<and> length (msg_data (make_message data)) \<le> maxMessageSize e s \<longrightarrow>
      send e accepted data s = (Return accepted, fire (WsSend (make_message data)) s))"
  by (auto simp: send_def outgoing_def)

section \<open>Entering Open\<close>


lemma fst_case_prod: "fst (case p of (r, s') \<Rightarrow> (f r, s')) = f (fst p)"
  by (cases p) simp



























section \<open>The pattern on well-formed URLs\<close>

lemma rep_star:
  assumes "\<forall>ch \<in> set xs. atom_matches a ch" and "ys = [] \<or> \<not> atom_matches a (hd ys)"
    and "yields (k ys) Q"
  shows "yields (rep a 0 None (xs @ ys) k) Q"
  using assms
proof (induction xs)
  case Nil
  then show ?case by (cases ys) (auto simp: yields_def)
next
  case (Cons x xs)
  then have "yields (rep a 0 None (xs @ ys) k) Q" by simp
  then show ?case using Cons.prems(1) by (auto simp: yields_def)
qed

lemma rep_plus:
  assumes "xs \<noteq> []" and "\<forall>ch \<in> set xs. atom_matches a ch"
    and "ys = [] \<or> \<not> atom_matches a (hd ys)" and "yields (k ys) Q"
  shows "yields (rep a 1 None (xs @ ys) k) Q"
proof (cases xs)
  case Nil
  with assms show ?thesis by simp
next
  case (Cons x xs')
  with assms have "yields (rep a 0 None (xs' @ ys) k) Q" by (intro rep_star) simp_all
  then show ?thesis using assms(2) Cons by (auto simp: yields_def)
qed

lemma rep_plus_fails: "\<not> atom_matches a x \<Longrightarrow> rep a 1 None (x # xs) k = None"
  by simp

lemma rep_at_most_none: "rep a 0 (Some 0) ys k = k ys"
  by (cases ys) simp_all

lemma rep_slashes:
  assumes "yields (k ys) Q"
  shows "yields (rep (Chr CHR ''/'') 0 (Some 2) (CHR ''/'' # CHR ''/'' # ys) k) Q"
  using assms by (auto simp: yields_def rep_at_most_none)

lemma rep_no_at:
  "CHR ''@'' \<notin> set s \<Longrightarrow> (\<And>s'. CHR ''@'' \<notin> set s' \<Longrightarrow> k s' = None) \<Longrightarrow> rep a lo hi s k = None"
  by (induction s arbitrary: lo hi) auto

lemma rmatch_no_at:
  "CHR ''@'' \<notin> set s \<Longrightarrow> (\<And>s' c'. CHR ''@'' \<notin> set s' \<Longrightarrow> k s' c' = None)
     \<Longrightarrow> rmatch r s c k = None"
proof (induction r arbitrary: s c k)
  case Bol
  then show ?case by simp
next
  case (Atom a)
  then show ?case by (cases s) auto
next
  case (Rep lo hi a)
  then show ?case by (simp add: rep_no_at)
next
  case (Opt r)
  then show ?case by simp
next
  case (Seq r1 r2)
  show ?case
    unfolding rmatch.simps
    by (rule Seq.IH(1) [OF Seq.prems(1)]) (rule Seq.IH(2), assumption, rule Seq.prems(2))
next
  case (Grp n r)
  show ?case
    unfolding rmatch.simps
    by (rule Grp.IH [OF Grp.prems(1)]) (rule Grp.prems(2))
qed

lemma at_fails: "CHR ''@'' \<notin> set s \<Longrightarrow> rmatch (Atom (Chr CHR ''@'')) s c k = None"
  by (cases s) auto

lemma y_final: "Q c \<Longrightarrow> yields ((\<lambda>s' c. if s' = [] then Some c else None) [] c) Q"
  by (simp add: yields_def)

lemma y_bol: "yields (k s c) Q \<Longrightarrow> yields (rmatch Bol s c k) Q"
  by simp

lemma y_seq:
  "yields (rmatch r1 s c (\<lambda>s' c'. rmatch r2 s' c' k)) Q \<Longrightarrow> yields (rmatch (Seq r1 r2) s c k) Q"
  by simp

lemma y_grp:
  "yields (rmatch r s c (\<lambda>s' c'. k s' ((n, take (length s - length s') s) # c'))) Q
     \<Longrightarrow> yields (rmatch (Grp n r) s c k) Q"
  by simp

lemma y_opt_take: "yields (rmatch r s c k) Q \<Longrightarrow> yields (rmatch (Opt r) s c k) Q"
  by (auto simp: yields_def)

lemma y_opt_skip:
  "rmatch r s c k = None \<Longrightarrow> yields (k s c) Q \<Longrightarrow> yields (rmatch (Opt r) s c k) Q"
  by simp

lemma y_chr: "yields (k s c) Q \<Longrightarrow> yields (rmatch (Atom (Chr d)) (d # s) c k) Q"
  by simp

lemma y_slashes:
  "yields (k ys c) Q
     \<Longrightarrow> yields (rmatch (Rep 0 (Some 2) (Chr CHR ''/'')) (CHR ''/'' # CHR ''/'' # ys) c k) Q"
  unfolding rmatch.simps by (rule rep_slashes)

lemma y_grp_star:
  assumes "\<forall>ch \<in> set xs. atom_matches a ch" and "ys = [] \<or> \<not> atom_matches a (hd ys)"
    and "yields (k ys ((n, xs) # c)) Q"
  shows "yields (rmatch (Grp n (star a)) (xs @ ys) c k) Q"
  unfolding rmatch.simps star_def
  by (rule rep_star [OF assms(1,2)]) (use assms(3) in simp)

lemma y_opt_field:
  assumes "\<forall>x. p = Some x \<longrightarrow> (\<forall>ch \<in> set x. atom_matches a ch)"
    and "rest = [] \<or> (\<not> atom_matches a (hd rest) \<and> hd rest \<noteq> d)"
    and "yields (k rest (opt_caps n1 n2 d p @ c)) Q"
  shows "yields (rmatch (Opt (Grp n1 (Seq (Atom (Chr d)) (Grp n2 (star a)))))
                   (opt_part d p @ rest) c k) Q"
proof (cases p)
  case None
  have "rmatch (Grp n1 (Seq (Atom (Chr d)) (Grp n2 (star a)))) rest c k = None"
    using assms(2) by (cases rest) auto
  then show ?thesis
    using assms(3) None by (simp add: opt_part_def opt_caps_def)
next
  case (Some x)
  have "yields (rmatch (Grp n2 (star a)) (x @ rest) c
                  (\<lambda>s' c'. k s' ((n1, take (length (d # x @ rest) - length s') (d # x @ rest)) # c'))) Q"
    using assms Some by (intro y_grp_star) (auto simp: opt_caps_def)
  then show ?thesis
    using Some by (intro y_opt_take) (simp add: opt_part_def)
qed

lemma y_opt_field_end:
  assumes "\<forall>x. p = Some x \<longrightarrow> (\<forall>ch \<in> set x. atom_matches a ch)"
    and "yields (k [] (opt_caps n1 n2 d p @ c)) Q"
  shows "yields (rmatch (Opt (Grp n1 (Seq (Atom (Chr d)) (Grp n2 (star a)))))
                   (opt_part d p) c k) Q"
proof -
  have "yields (rmatch (Opt (Grp n1 (Seq (Atom (Chr d)) (Grp n2 (star a)))))
                   (opt_part d p @ []) c k) Q"
    by (rule y_opt_field) (use assms in simp_all)
  then show ?thesis by simp
qed

lemma y_scheme:
  assumes "\<forall>x. p = Some x \<longrightarrow> x \<noteq> [] \<and> (\<forall>ch \<in> set x. atom_matches a ch)"
    and "\<not> atom_matches a CHR '':''" and "\<not> atom_matches a CHR ''/''"
    and "yields (k (CHR ''/'' # rest) (scheme_caps p @ c)) Q"
  shows "yields (rmatch (Opt (Grp 1 (Seq (Grp 2 (plus a)) (Atom (Chr CHR '':'')))))
                   (scheme_part p @ CHR ''/'' # rest) c k) Q"
proof (cases p)
  case None
  have "rmatch (Grp 1 (Seq (Grp 2 (plus a)) (Atom (Chr CHR '':'')))) (CHR ''/'' # rest) c k = None"
    using assms(3) by (simp add: plus_def)
  then show ?thesis
    using assms(4) None by (simp add: scheme_part_def scheme_caps_def)
next
  case (Some x)
  let ?s = "x @ CHR '':'' # CHR ''/'' # rest"
  have "yields (rep a 1 None (x @ CHR '':'' # CHR ''/'' # rest)
          (\<lambda>s'. rmatch (Atom (Chr CHR '':'')) s' ((2, take (length ?s - length s') ?s) # c)
                   (\<lambda>s' c'. k s' ((1, take (length ?s - length s') ?s) # c')))) Q"
    using assms Some by (intro rep_plus) (auto simp: scheme_caps_def)
  then show ?thesis
    using Some by (intro y_opt_take) (simp add: scheme_part_def plus_def)
qed

lemma seq_at_fails:
  assumes "CHR ''@'' \<notin> set s"
  shows "rmatch (Seq r (Atom (Chr CHR ''@''))) s c k = None"
proof -
  have "rmatch r s c (\<lambda>s' c'. rmatch (Atom (Chr CHR ''@'')) s' c' k) = None"
    by (rule rmatch_no_at [OF assms]) (rule at_fails)
  then show ?thesis by simp
qed

lemma grp_fails:
  assumes "\<And>k' :: string \<Rightarrow> captures \<Rightarrow> 'r option. rmatch r s c k' = None"
  shows "rmatch (Grp n r) s c (k :: string \<Rightarrow> captures \<Rightarrow> 'r option) = None"
  unfolding rmatch.simps by (rule assms)

lemma y_userinfo:
  assumes "\<forall>user pass. p = Some (user, pass) \<longrightarrow>
             none_of '':@'' user \<and> (\<forall>pw. pass = Some pw \<longrightarrow> none_of ''@'' pw)"
    and "CHR ''@'' \<notin> set rest"
    and "yields (k rest (userinfo_caps p @ c)) Q"
  shows "yields (rmatch
           (Opt (Grp 4 (Seq
             (Grp 5 (Seq (Grp 6 (star (NoneOf '':@'')))
                (Opt (Grp 7 (Seq (Atom (Chr CHR '':'')) (Grp 8 (star (NoneOf ''@''))))))))
             (Atom (Chr CHR ''@'')))))
           (userinfo_part p @ rest) c k) Q"
proof (cases p)
  case None
  have "rmatch (Grp 4 (Seq
             (Grp 5 (Seq (Grp 6 (star (NoneOf '':@'')))
                (Opt (Grp 7 (Seq (Atom (Chr CHR '':'')) (Grp 8 (star (NoneOf ''@''))))))))
             (Atom (Chr CHR ''@'')))) rest c k = None"
    by (rule grp_fails) (rule seq_at_fails [OF assms(2)])
  then show ?thesis
    using assms(3) None by (simp add: userinfo_part_def userinfo_caps_def)
next
  case (Some up)
  obtain user pass where up: "up = (user, pass)" by (cases up)
  from assms(1) Some up have user: "\<forall>ch \<in> set user. atom_matches (NoneOf '':@'') ch"
    and pass: "\<forall>x. pass = Some x \<longrightarrow> (\<forall>ch \<in> set x. atom_matches (NoneOf ''@'') ch)"
    by (auto simp: none_of_def)
  have str: "userinfo_part p @ rest = user @ opt_part CHR '':'' pass @ CHR ''@'' # rest"
    using Some up by (simp add: userinfo_part_def)
  have bound: "opt_part CHR '':'' pass @ CHR ''@'' # rest = []
                 \<or> \<not> atom_matches (NoneOf '':@'') (hd (opt_part CHR '':'' pass @ CHR ''@'' # rest))"
    by (cases pass) (simp_all add: opt_part_def)
  have caps: "userinfo_caps p = [(4, user @ opt_part CHR '':'' pass @ ''@''),
                (5, user @ opt_part CHR '':'' pass)] @ opt_caps 7 8 CHR '':'' pass @ [(6, user)]"
    using Some up by (simp add: userinfo_caps_def)
  show ?thesis
    unfolding str
    apply (rule y_opt_take)
    apply (rule y_grp)
    apply (rule y_seq)
    apply (rule y_grp)
    apply (rule y_seq)
    apply (rule y_grp_star [OF user bound])
    apply (rule y_opt_field [OF pass])
     apply simp
    apply (rule y_chr)
    using assms(3) apply (simp add: caps)
    done
qed

lemma set_opt_part: "set (opt_part d p) = (case p of None \<Rightarrow> {} | Some x \<Rightarrow> insert d (set x))"
  by (cases p) (simp_all add: opt_part_def)

lemma wf_scheme:
  "well_formed u \<Longrightarrow> u_scheme u = Some x \<Longrightarrow> x \<noteq> [] \<and> none_of '':.@/?#'' x"
  by (simp add: well_formed_def)

lemma wf_userinfo:
  "well_formed u \<Longrightarrow> u_userinfo u = Some (user, pass) \<Longrightarrow>
     none_of '':@/?#'' user \<and> (\<forall>pw. pass = Some pw \<longrightarrow> none_of ''@/?#'' pw)"
  by (cases pass) (simp_all add: well_formed_def)

lemma wf_host: "well_formed u \<Longrightarrow> none_of '':/?#@'' (u_host u)"
  by (simp add: well_formed_def)

lemma wf_port: "well_formed u \<Longrightarrow> u_port u = Some x \<Longrightarrow> none_of ''/?#@'' x"
  by (simp add: well_formed_def)

lemma wf_path:
  "well_formed u \<Longrightarrow> (u_path u = [] \<or> hd (u_path u) = CHR ''/'') \<and> none_of ''?#@'' (u_path u)"
  by (simp add: well_formed_def)

lemma wf_query: "well_formed u \<Longrightarrow> u_query u = Some x \<Longrightarrow> none_of ''#@'' x"
  by (simp add: well_formed_def)

lemma wf_fragment:
  "well_formed u \<Longrightarrow> u_fragment u = Some x \<Longrightarrow> none_of [CHR ''@'', CHR 0x00] x"
  by (simp add: well_formed_def)

lemma none_of_weaken: "none_of cs x \<Longrightarrow> set ds \<subseteq> set cs \<Longrightarrow> none_of ds x"
  by (auto simp: none_of_def)

lemma none_of_matches: "none_of cs x \<Longrightarrow> \<forall>ch \<in> set x. atom_matches (NoneOf cs) ch"
  by (simp add: none_of_def)

lemma none_of_no_at: "none_of cs x \<Longrightarrow> CHR ''@'' \<in> set cs \<Longrightarrow> CHR ''@'' \<notin> set x"
  by (auto simp: none_of_def)

lemma no_at_opt_part:
  "d \<noteq> CHR ''@'' \<Longrightarrow> (\<And>x. p = Some x \<Longrightarrow> CHR ''@'' \<notin> set x) \<Longrightarrow> CHR ''@'' \<notin> set (opt_part d p)"
  by (cases p) (simp_all add: opt_part_def)

lemma no_at_tail:
  assumes wf: "well_formed u"
  shows "CHR ''@'' \<notin> set (u_host u @ opt_part CHR '':'' (u_port u) @ u_path u
            @ opt_part CHR ''?'' (u_query u) @ opt_part CHR ''#'' (u_fragment u))"
proof -
  have h: "CHR ''@'' \<notin> set (u_host u)"
    using wf_host [OF wf] by (rule none_of_no_at) simp
  have p: "CHR ''@'' \<notin> set (opt_part CHR '':'' (u_port u))"
    by (rule no_at_opt_part, simp) (rule none_of_no_at [OF wf_port [OF wf]], assumption, simp)
  have pa: "CHR ''@'' \<notin> set (u_path u)"
    using wf_path [OF wf, THEN conjunct2] by (rule none_of_no_at) simp
  have q: "CHR ''@'' \<notin> set (opt_part CHR ''?'' (u_query u))"
    by (rule no_at_opt_part, simp) (rule none_of_no_at [OF wf_query [OF wf]], assumption, simp)
  have f: "CHR ''@'' \<notin> set (opt_part CHR ''#'' (u_fragment u))"
    by (rule no_at_opt_part, simp) (rule none_of_no_at [OF wf_fragment [OF wf]], assumption, simp)
  from h p pa q f show ?thesis by simp
qed

lemma bound_fragment:
  "opt_part CHR ''#'' fr = []
   \<or> (\<not> atom_matches (NoneOf ''#'') (hd (opt_part CHR ''#'' fr))
      \<and> hd (opt_part CHR ''#'' fr) \<noteq> CHR ''?'')"
  by (cases fr) (simp_all add: opt_part_def)

lemma bound_query:
  "opt_part CHR ''?'' qu @ opt_part CHR ''#'' fr = []
   \<or> \<not> atom_matches (NoneOf ''?#'') (hd (opt_part CHR ''?'' qu @ opt_part CHR ''#'' fr))"
  by (cases qu; cases fr) (simp_all add: opt_part_def)

lemma bound_path:
  assumes "pa = [] \<or> hd pa = CHR ''/''"
  shows "pa @ opt_part CHR ''?'' qu @ opt_part CHR ''#'' fr = []
   \<or> (\<not> atom_matches (NoneOf ''/?#'') (hd (pa @ opt_part CHR ''?'' qu @ opt_part CHR ''#'' fr))
      \<and> hd (pa @ opt_part CHR ''?'' qu @ opt_part CHR ''#'' fr) \<noteq> CHR '':'')"
proof (cases "pa = []")
  case True
  then show ?thesis by (cases qu; cases fr) (simp_all add: opt_part_def)
next
  case False
  then show ?thesis using assms by simp
qed

lemma bound_port:
  assumes "pa = [] \<or> hd pa = CHR ''/''"
  shows "opt_part CHR '':'' po @ pa @ opt_part CHR ''?'' qu @ opt_part CHR ''#'' fr = []
   \<or> \<not> atom_matches (NoneOf '':/?#'')
        (hd (opt_part CHR '':'' po @ pa @ opt_part CHR ''?'' qu @ opt_part CHR ''#'' fr))"
proof (cases po)
  case None
  then show ?thesis using bound_path [OF assms, of qu fr] by (auto simp: opt_part_def)
next
  case (Some x)
  then show ?thesis by (simp add: opt_part_def)
qed

lemma spec_url_unfold:
  "spec_url u = scheme_part (u_scheme u) @ CHR ''/'' # CHR ''/'' #
     (userinfo_part (u_userinfo u) @ (u_host u @ (opt_part CHR '':'' (u_port u)
        @ (u_path u @ (opt_part CHR ''?'' (u_query u) @ opt_part CHR ''#'' (u_fragment u))))))"
  by (simp add: spec_url_def)

lemma final_captures:
  "sub (opt_caps 16 17 d3 fr @ opt_caps 14 15 d2 qu @ (13, pa) # (3, j3) # (9, j9)
          # opt_caps 11 12 d1 po @ (10, ho) # userinfo_caps ui @ scheme_caps sc @ []) 2 = opt_str sc
   \<and> sub (opt_caps 16 17 d3 fr @ opt_caps 14 15 d2 qu @ (13, pa) # (3, j3) # (9, j9)
          # opt_caps 11 12 d1 po @ (10, ho) # userinfo_caps ui @ scheme_caps sc @ []) 10 = ho
   \<and> sub (opt_caps 16 17 d3 fr @ opt_caps 14 15 d2 qu @ (13, pa) # (3, j3) # (9, j9)
          # opt_caps 11 12 d1 po @ (10, ho) # userinfo_caps ui @ scheme_caps sc @ []) 12 = opt_str po
   \<and> sub (opt_caps 16 17 d3 fr @ opt_caps 14 15 d2 qu @ (13, pa) # (3, j3) # (9, j9)
          # opt_caps 11 12 d1 po @ (10, ho) # userinfo_caps ui @ scheme_caps sc @ []) 13 = pa
   \<and> sub (opt_caps 16 17 d3 fr @ opt_caps 14 15 d2 qu @ (13, pa) # (3, j3) # (9, j9)
          # opt_caps 11 12 d1 po @ (10, ho) # userinfo_caps ui @ scheme_caps sc @ []) 15 = opt_str qu"
  by (cases fr; cases qu; cases po; cases sc; cases ui)
     (simp_all add: sub_def opt_caps_def scheme_caps_def userinfo_caps_def opt_str_def
        split: prod.split option.split)

lemma regex_spec_url:
  assumes wf: "well_formed u"
  shows "yields (regex_match rs (spec_url u))
           (\<lambda>m. sub m 2 = opt_str (u_scheme u) \<and> sub m 10 = u_host u
                \<and> sub m 12 = opt_str (u_port u) \<and> sub m 13 = u_path u
                \<and> sub m 15 = opt_str (u_query u))"
proof -
  have sch: "\<forall>x. u_scheme u = Some x \<longrightarrow>
               x \<noteq> [] \<and> (\<forall>ch \<in> set x. atom_matches (NoneOf '':.@/?#'') ch)"
    using wf_scheme [OF wf] by (simp add: none_of_def)
  have ui: "\<forall>user pass. u_userinfo u = Some (user, pass) \<longrightarrow>
             none_of '':@'' user \<and> (\<forall>pw. pass = Some pw \<longrightarrow> none_of ''@'' pw)"
    using wf_userinfo [OF wf] by (simp add: none_of_def)
  have host: "\<forall>ch \<in> set (u_host u). atom_matches (NoneOf '':/?#'') ch"
    using wf_host [OF wf] by (simp add: none_of_def)
  have port: "\<forall>x. u_port u = Some x \<longrightarrow> (\<forall>ch \<in> set x. atom_matches (NoneOf ''/?#'') ch)"
    using wf_port [OF wf] by (simp add: none_of_def)
  have path: "\<forall>ch \<in> set (u_path u). atom_matches (NoneOf ''?#'') ch"
    using wf_path [OF wf] by (simp add: none_of_def)
  have pth: "u_path u = [] \<or> hd (u_path u) = CHR ''/''"
    using wf_path [OF wf] by simp
  have query: "\<forall>x. u_query u = Some x \<longrightarrow> (\<forall>ch \<in> set x. atom_matches (NoneOf ''#'') ch)"
    using wf_query [OF wf] by (simp add: none_of_def)
  have frag: "\<forall>x. u_fragment u = Some x \<longrightarrow> (\<forall>ch \<in> set x. atom_matches AnyChar ch)"
    using wf_fragment [OF wf] by (simp add: none_of_def)
  show ?thesis
    unfolding regex_match_def rs_def cat.simps spec_url_unfold
    apply (rule y_seq)
    apply (rule y_bol)
    apply (rule y_seq)
    apply (rule y_scheme [OF sch])
      apply simp
     apply simp
    apply (rule y_seq)
    apply (rule y_opt_take)
    apply (rule y_grp)
    apply (rule y_seq)
    apply (rule y_slashes)
    apply (rule y_seq)
    apply (rule y_userinfo [OF ui no_at_tail [OF wf]])
    apply (rule y_grp)
    apply (rule y_seq)
    apply (rule y_grp_star [OF host bound_port [OF pth]])
    apply (rule y_opt_field [OF port bound_path [OF pth]])
    apply (rule y_seq)
    apply (rule y_grp_star [OF path bound_query])
    apply (rule y_seq)
    apply (rule y_opt_field [OF query bound_fragment])
    apply (rule y_opt_field_end [OF frag])
    apply (rule y_final)
    apply (rule final_captures)
    done
qed

section \<open>Opening a URL\<close>






lemma open_op_not_Closed:
  "mState s \<noteq> Closed \<Longrightarrow>
     open_op oc url s = (Throw (LogicError ''WebSocket must be closed before opening''), s)"
  by (simp add: open_op_def)

lemma open_op_no_match:
  "mState s = Closed \<Longrightarrow> regex_match rs url = None \<Longrightarrow>
     open_op oc url s = (Throw (InvalidArgument (''Invalid WebSocket URL: '' @ url)), s)"
  by (simp add: open_op_def)

lemma open_op_no_host:
  "mState s = Closed \<Longrightarrow> regex_match rs url = Some m \<Longrightarrow> sub m 10 = [] \<Longrightarrow>
     open_op oc url s = (Throw (InvalidArgument (''Invalid WebSocket URL: '' @ url)), s)"
  by (simp add: open_op_def)

lemma open_op_bad_scheme:
  "mState s = Closed \<Longrightarrow> regex_match rs url = Some m \<Longrightarrow> sub m 10 \<noteq> [] \<Longrightarrow>
   \<not> accepted_scheme (sub m 2) \<Longrightarrow>
     open_op oc url s
       = (Throw (InvalidArgument (''Invalid WebSocket scheme: '' @ sub m 2)),
          s\<lparr>mScheme := sub m 2\<rparr>)"
  by (simp add: open_op_def accepted_scheme_def Let_def)

lemma open_op_parsed:
  "mState s = Closed \<Longrightarrow> regex_match rs url = Some m \<Longrightarrow> sub m 10 \<noteq> [] \<Longrightarrow>
   accepted_scheme (sub m 2) \<Longrightarrow>
     open_op oc url s
       = (case initTcpTransport oc
                (snd (changeState Connecting
                   (set_fields m (s\<lparr>mScheme := (if sub m 2 = [] then ''ws'' else sub m 2)\<rparr>)))) of
            (r, s') \<Rightarrow> (discard r, s'))"
  by (auto simp: open_op_def accepted_scheme_def Let_def)

lemma initTcp_result:
  "(\<exists>t. fst (initTcpTransport oc s) = Return t)
   \<or> fst (initTcpTransport oc s) = Throw (RuntimeError ''TCP transport initialization failed'')"
  by (cases "mTcpTransport s") (simp_all add: initTcpTransport_def init_failed_def Let_def)


lemma spec_url_match:
  assumes "well_formed u"
  obtains m where "regex_match rs (spec_url u) = Some m"
    and "sub m 2 = opt_str (u_scheme u)" and "sub m 10 = u_host u"
    and "sub m 12 = opt_str (u_port u)" and "sub m 13 = u_path u"
    and "sub m 15 = opt_str (u_query u)"
  using regex_spec_url [OF assms] by (auto simp: yields_def)


lemma open_op_invalid_argument:
  assumes "fst (open_op oc url s) = Throw (InvalidArgument msg)"
  shows "mState s = Closed \<and> (snd (open_op oc url s))\<lparr>mScheme := mScheme s\<rparr> = s"
proof (cases "mState s = Closed")
  case False
  with assms show ?thesis by (simp add: open_op_not_Closed)
next
  case closed: True
  show ?thesis
  proof (cases "regex_match rs url")
    case None
    then show ?thesis using closed by (simp add: open_op_no_match)
  next
    case (Some m)
    show ?thesis
    proof (cases "sub m 10 = []")
      case True
      then show ?thesis using closed Some by (simp add: open_op_no_host)
    next
      case host: False
      show ?thesis
      proof (cases "accepted_scheme (sub m 2)")
        case False
        then show ?thesis using closed Some host by (simp add: open_op_bad_scheme)
      next
        case True
        let ?t = "snd (changeState Connecting
                   (set_fields m (s\<lparr>mScheme := (if sub m 2 = [] then ''ws'' else sub m 2)\<rparr>)))"
        have "fst (open_op oc url s) = discard (fst (initTcpTransport oc ?t))"
          by (simp only: open_op_parsed [OF closed Some host True] fst_case_prod)
        then have "fst (open_op oc url s) \<noteq> Throw (InvalidArgument msg)"
          using initTcp_result [of oc ?t] by auto
        with assms show ?thesis by simp
      qed
    qed
  qed
qed

lemma open_op_spec_url:
  assumes wf: "well_formed u" and closed: "mState s = Closed"
  shows "((\<exists>msg. fst (open_op oc (spec_url u) s) = Throw (InvalidArgument msg))
            \<longleftrightarrow> u_host u = [] \<or> \<not> accepted_scheme (opt_str (u_scheme u)))
       \<and> (u_host u = [] \<longrightarrow> open_op oc (spec_url u) s
             = (Throw (InvalidArgument (''Invalid WebSocket URL: '' @ spec_url u)), s))
       \<and> (u_host u \<noteq> [] \<and> \<not> accepted_scheme (opt_str (u_scheme u)) \<longrightarrow>
             open_op oc (spec_url u) s
               = (Throw (InvalidArgument (''Invalid WebSocket scheme: '' @ opt_str (u_scheme u))),
                  s\<lparr>mScheme := opt_str (u_scheme u)\<rparr>))"
proof -
  from wf obtain m where m: "regex_match rs (spec_url u) = Some m"
    and g: "sub m 2 = opt_str (u_scheme u)" "sub m 10 = u_host u"
    by (rule spec_url_match)
  show ?thesis
  proof (cases "u_host u = []")
    case True
    then show ?thesis using open_op_no_host [OF closed m, of oc] g by simp
  next
    case host: False
    then have h: "sub m 10 \<noteq> []" using g by simp
    show ?thesis
    proof (cases "accepted_scheme (opt_str (u_scheme u))")
      case False
      then have "\<not> accepted_scheme (sub m 2)" using g by simp
      from open_op_bad_scheme [OF closed m h this, of oc] show ?thesis
        using host False g by simp
    next
      case True
      then have a: "accepted_scheme (sub m 2)" using g by simp
      let ?t = "snd (changeState Connecting
                 (set_fields m (s\<lparr>mScheme := (if sub m 2 = [] then ''ws'' else sub m 2)\<rparr>)))"
      have "fst (open_op oc (spec_url u) s) = discard (fst (initTcpTransport oc ?t))"
        by (simp only: open_op_parsed [OF closed m h a] fst_case_prod)
      then have "\<forall>msg. fst (open_op oc (spec_url u) s) \<noteq> Throw (InvalidArgument msg)"
        using initTcp_result [of oc ?t] by auto
      then show ?thesis using host True by simp
    qed
  qed
qed

text \<open>
  C6, amended. \<open>open\<close> throws a logic error exactly when the state is not Closed, and
  then leaves the endpoint as it was. In state Closed, for a URL written from
  well-formed parts, it throws an invalid-argument error exactly when the host part is
  empty or the scheme is other than \<open>ws\<close> and \<open>wss\<close>: for an empty host the endpoint is
  left as it was, for such a scheme it is left as it was but for the scheme field,
  which holds the refused scheme. For every string, an invalid-argument error comes
  only in state Closed and leaves every field but the scheme as it was.
\<close>

theorem open_throws:
  "((\<exists>msg. fst (open_op oc url s) = Throw (LogicError msg)) \<longleftrightarrow> mState s \<noteq> Closed)
   \<and> (mState s \<noteq> Closed \<longrightarrow> snd (open_op oc url s) = s)
   \<and> ((\<exists>msg. fst (open_op oc url s) = Throw (InvalidArgument msg)) \<longrightarrow>
        mState s = Closed \<and> (snd (open_op oc url s))\<lparr>mScheme := mScheme s\<rparr> = s)
   \<and> (well_formed u \<and> mState s = Closed \<longrightarrow>
        ((\<exists>msg. fst (open_op oc (spec_url u) s) = Throw (InvalidArgument msg))
           \<longleftrightarrow> u_host u = [] \<or> \<not> accepted_scheme (opt_str (u_scheme u)))
        \<and> (u_host u = [] \<longrightarrow> snd (open_op oc (spec_url u) s) = s)
        \<and> (u_host u \<noteq> [] \<and> \<not> accepted_scheme (opt_str (u_scheme u)) \<longrightarrow>
             snd (open_op oc (spec_url u) s) = s\<lparr>mScheme := opt_str (u_scheme u)\<rparr>))"
proof -
  have logic: "(\<exists>msg. fst (open_op oc url s) = Throw (LogicError msg)) \<longleftrightarrow> mState s \<noteq> Closed"
  proof (cases "mState s = Closed")
    case False
    then show ?thesis by (simp add: open_op_not_Closed)
  next
    case closed: True
    have "fst (open_op oc url s) \<noteq> Throw (LogicError msg)" for msg
    proof (cases "regex_match rs url")
      case None
      then show ?thesis using closed by (simp add: open_op_no_match)
    next
      case (Some m)
      show ?thesis
      proof (cases "sub m 10 = []")
        case True
        then show ?thesis using closed Some by (simp add: open_op_no_host)
      next
        case host: False
        show ?thesis
        proof (cases "accepted_scheme (sub m 2)")
          case False
          then show ?thesis using closed Some host by (simp add: open_op_bad_scheme)
        next
          case True
          let ?t = "snd (changeState Connecting
                     (set_fields m (s\<lparr>mScheme := (if sub m 2 = [] then ''ws'' else sub m 2)\<rparr>)))"
          have "fst (open_op oc url s) = discard (fst (initTcpTransport oc ?t))"
            by (simp only: open_op_parsed [OF closed Some host True] fst_case_prod)
          then show ?thesis using initTcp_result [of oc ?t] by auto
        qed
      qed
    qed
    with closed show ?thesis by simp
  qed
  have unchanged: "mState s \<noteq> Closed \<longrightarrow> snd (open_op oc url s) = s"
    by (simp add: open_op_not_Closed)
  have invalid: "(\<exists>msg. fst (open_op oc url s) = Throw (InvalidArgument msg)) \<longrightarrow>
        mState s = Closed \<and> (snd (open_op oc url s))\<lparr>mScheme := mScheme s\<rparr> = s"
    using open_op_invalid_argument [of oc url s] by blast
  have shaped: "well_formed u \<and> mState s = Closed \<longrightarrow>
        ((\<exists>msg. fst (open_op oc (spec_url u) s) = Throw (InvalidArgument msg))
           \<longleftrightarrow> u_host u = [] \<or> \<not> accepted_scheme (opt_str (u_scheme u)))
        \<and> (u_host u = [] \<longrightarrow> snd (open_op oc (spec_url u) s) = s)
        \<and> (u_host u \<noteq> [] \<and> \<not> accepted_scheme (opt_str (u_scheme u)) \<longrightarrow>
             snd (open_op oc (spec_url u) s) = s\<lparr>mScheme := opt_str (u_scheme u)\<rparr>)"
  proof (intro impI)
    assume a: "well_formed u \<and> mState s = Closed"
    then have wf: "well_formed u" and closed: "mState s = Closed" by simp_all
    from open_op_spec_url [OF wf closed, of oc] show
      "((\<exists>msg. fst (open_op oc (spec_url u) s) = Throw (InvalidArgument msg))
           \<longleftrightarrow> u_host u = [] \<or> \<not> accepted_scheme (opt_str (u_scheme u)))
        \<and> (u_host u = [] \<longrightarrow> snd (open_op oc (spec_url u) s) = s)
        \<and> (u_host u \<noteq> [] \<and> \<not> accepted_scheme (opt_str (u_scheme u)) \<longrightarrow>
             snd (open_op oc (spec_url u) s) = s\<lparr>mScheme := opt_str (u_scheme u)\<rparr>)"
      by simp
  qed
  from logic unchanged invalid shaped show ?thesis by (intro conjI)
qed

section \<open>The properties on the example endpoints\<close>


lemma run_example_stale:
  "run example_env example_stale_run (new_world example_config None) = Some example_stale_world"
  by code_simp



text \<open>
  C6 as first stated fails on a Closed endpoint whose scheme field holds \<open>ws\<close> from an
  earlier \<open>open\<close>: \<open>open\<close> of \<open>http://x/\<close> throws the error for the scheme and leaves \<open>http\<close>
  in the scheme field.
\<close>

theorem open_bad_scheme_overwrites_scheme:
  "mState example_closed = Closed
   \<and> mScheme example_closed = ''ws''
   \<and> fst (open_op Started ''http://x/'' example_closed)
       = Throw (InvalidArgument ''Invalid WebSocket scheme: http'')
   \<and> mScheme (snd (open_op Started ''http://x/'' example_closed)) = ''http''
   \<and> snd (open_op Started ''http://x/'' example_closed) \<noteq> example_closed"
proof -
  have 1: "mState example_closed = Closed" "mScheme example_closed = ''ws''"
    by code_simp+
  have 2: "fst (open_op Started ''http://x/'' example_closed)
       = Throw (InvalidArgument ''Invalid WebSocket scheme: http'')" by code_simp
  have 3: "mScheme (snd (open_op Started ''http://x/'' example_closed)) = ''http''"
    by code_simp
  from 1 3 have "snd (open_op Started ''http://x/'' example_closed) \<noteq> example_closed"
    by auto
  with 1 2 3 show ?thesis by simp
qed

theorem open_throws_witness:
  "fst (open_op Started (spec_url example_no_host) example_open)
       = Throw (LogicError ''WebSocket must be closed before opening'')
   \<and> snd (open_op Started (spec_url example_no_host) example_open) = example_open
   \<and> spec_url example_no_host = ''ws://''
   \<and> fst (open_op Started (spec_url example_no_host) example_closed)
       = Throw (InvalidArgument ''Invalid WebSocket URL: ws://'')
   \<and> snd (open_op Started (spec_url example_no_host) example_closed) = example_closed
   \<and> spec_url example_http = ''http://x/''
   \<and> fst (open_op Started (spec_url example_http) example_closed)
       = Throw (InvalidArgument ''Invalid WebSocket scheme: http'')
   \<and> snd (open_op Started (spec_url example_http) example_closed)
       = example_closed\<lparr>mScheme := ''http''\<rparr>"
proof -
  have o: "mState example_open \<noteq> Closed" by code_simp
  have c: "mState example_closed = Closed" by code_simp
  have wf: "well_formed example_no_host" "well_formed example_http" by code_simp+
  have g: "u_host example_no_host = []" "u_host example_http \<noteq> []"
    "opt_str (u_scheme example_http) = ''http''" "\<not> accepted_scheme ''http''"
    "spec_url example_no_host = ''ws://''" "spec_url example_http = ''http://x/''"
    by code_simp+
  have f: "fst (open_op Started ''ws://'' example_open)
       = Throw (LogicError ''WebSocket must be closed before opening'')"
    "fst (open_op Started ''ws://'' example_closed)
       = Throw (InvalidArgument ''Invalid WebSocket URL: ws://'')"
    "fst (open_op Started ''http://x/'' example_closed)
       = Throw (InvalidArgument ''Invalid WebSocket scheme: http'')"
    by code_simp+
  show ?thesis
    using open_throws [of Started "spec_url example_no_host" example_open example_no_host]
      open_throws [of Started "spec_url example_no_host" example_closed example_no_host]
      open_throws [of Started "spec_url example_http" example_closed example_http]
    by (simp add: o c wf g f)
qed

theorem close_changes_state_witness:
  "mState example_connecting = Connecting
   \<and> mState (close example_connecting) = Closed
   \<and> mState example_open = Open
   \<and> mState (close example_open) = Closing
   \<and> close example_closed = example_closed
   \<and> close (close example_open) = close example_open"
proof -
  have 1: "mState example_connecting = Connecting" "mWsTransport example_connecting = None"
    "mState example_open = Open" "mWsTransport example_open \<noteq> None"
    "mState example_closed = Closed"
    by code_simp+
  have 2: "mState (close example_open) = Closing"
    using close_changes_state [of example_open] 1 by simp
  show ?thesis
    using close_changes_state [of example_connecting] close_changes_state [of example_closed]
      close_changes_state [of "close example_open"] 1 2
    by simp
qed

theorem remoteClose_idempotent_witness:
  "mState example_closed = Closed
   \<and> remoteClose example_closed = example_closed
   \<and> remoteClose (remoteClose example_open) = remoteClose example_open"
proof -
  have 1: "mState example_closed = Closed" by code_simp
  show ?thesis
    using remoteClose_idempotent [of example_closed] remoteClose_idempotent [of example_open] 1
    by simp
qed



theorem receive_first_application_witness:
  "fst (receive (fresh\<lparr>mRecvQueue := example_queue\<rparr>)) = Some (VString ''hi'')
   \<and> mRecvQueue (snd (receive (fresh\<lparr>mRecvQueue := example_queue\<rparr>)))
       = [\<lparr>msg_type = Binary, msg_data = ''b''\<rparr>]"
  using receive_first_application [of "fresh\<lparr>mRecvQueue := example_queue\<rparr>"]
  by (simp add: example_queue_def)

theorem maxMessageSize_is_default_witness:
  "config_maxMessageSize (mConfig example_open) = 4
   \<and> maxMessageSize example_env example_open = 8
   \<and> send example_env True (VString ''12345678'') example_open
       = (Return True, fire (WsSend (make_message (VString ''12345678''))) example_open)
   \<and> fst (send example_env True (VString ''123456789'') example_open)
       = Throw (RuntimeError ''Message size exceeds limit'')"
proof -
  have 1: "mState example_open = Open" "mWsTransport example_open \<noteq> None"
    "config_maxMessageSize (mConfig example_open) = 4"
    by code_simp+
  have 2: "DEFAULT_MAX_MESSAGE_SIZE example_env = 8" by (simp add: example_env_def)
  have 3: "example_open\<lparr>mConfig := mConfig example_open\<rparr> = example_open" by simp
  show ?thesis
    using maxMessageSize_is_default
            [where e = example_env and s = example_open and c = "mConfig example_open"
               and accepted = True and data = "VString ''12345678''"]
          maxMessageSize_is_default
            [where e = example_env and s = example_open and c = "mConfig example_open"
               and accepted = True and data = "VString ''123456789''"]
          1 2 3
    by simp
qed



theorem send_checks_state_slot_and_size_witness:
  "send example_env True (VString ''x'') fresh
     = (Throw (RuntimeError ''WebSocket is not open''), fresh)
   \<and> send example_env True (VString ''x'') example_stale_open
     = (Throw (RuntimeError ''WebSocket is not open''), example_stale_open)
   \<and> send example_env True (VString ''123456789'') example_open
     = (Throw (RuntimeError ''Message size exceeds limit''), example_open)
   \<and> send example_env True (VBinary ''1234'') example_open
     = (Return True, fire (WsSend (make_message (VBinary ''1234''))) example_open)"
proof -
  have 1: "mState example_open = Open" "mState fresh \<noteq> Open"
    "mWsTransport example_open \<noteq> None" "mWsTransport example_stale_open = None"
    by code_simp+
  have 2: "maxMessageSize example_env example_open = 8"
    by (simp add: maxMessageSize_def example_env_def)
  show ?thesis
    using send_checks_state_slot_and_size [of fresh example_env True "VString ''x''"]
      send_checks_state_slot_and_size [of example_stale_open example_env True "VString ''x''"]
      send_checks_state_slot_and_size [of example_open example_env True "VString ''123456789''"]
      send_checks_state_slot_and_size [of example_open example_env True "VBinary ''1234''"]
      1 2
    by simp
qed

text \<open>
  C3 as first stated fails on the endpoint of the run above, which is Open with an empty
  WS slot: a message of nine bytes is longer than the limit of eight, yet \<open>send\<close> throws
  "WebSocket is not open".
\<close>

theorem send_in_open_state_without_ws_transport:
  "run example_env example_stale_run (new_world example_config None)
     = Some \<lparr>endpoint = example_stale_open,
              pool = [(mWsTransport example_ws_started, None, mTcpTransport example_ws_started)]\<rparr>
   \<and> mState example_stale_open = Open
   \<and> maxMessageSize example_env example_stale_open = 8
   \<and> length (msg_data (make_message (VString ''123456789''))) = 9
   \<and> send example_env True (VString ''123456789'') example_stale_open
       = (Throw (RuntimeError ''WebSocket is not open''), example_stale_open)"
  by code_simp

end
